theory Spec2Isabelle
  imports Complex_Main
begin

section \<open>Values exchanged with the search endpoint\<close>

text \<open>
  The front end is TypeScript. A JavaScript \<open>number\<close> that the search code handles is either
  \<open>NaN\<close> (what \<open>parseInt\<close> returns when it finds no digits) or an integer; fractions and
  infinities never arise from the page's own calls and are not modelled. A string is a list
  of code units, restricted to the Latin-1 range that \<open>char\<close> covers.
\<close>

datatype jsnum = NaN | Num int

text \<open>
  The interface \<open>PYQSearchResult\<close> of the types module, field by field. The fields
  carry the prefix \<open>pyq_\<close>: \<open>id\<close> is a constant of HOL, and \<open>year\<close> and \<open>subject\<close>
  are fields of the filters as well. The similarity score is only carried along.
\<close>

record PYQSearchResult =
  pyq_id :: int
  pyq_question :: string
  pyq_year :: int
  pyq_paper :: string
  pyq_subject :: string
  pyq_topics :: "string list"
  pyq_marks :: int
  pyq_difficulty :: string
  pyq_similarity_score :: real

text \<open>
  The optional second argument of \<open>searchPYQs\<close>, an object with the optional fields
  \<open>subject\<close>, \<open>year\<close>, \<open>limit\<close> and \<open>page\<close>. The sources hold two copies of the
  service: the parameter type of the earlier one does not name \<open>page\<close>, that of the later
  one does. \<open>None\<close> is an absent field (\<open>undefined\<close>).
\<close>

record search_filters =
  subject :: "string option"
  year :: "jsnum option"
  page :: "jsnum option"
  limit :: "jsnum option"

text \<open>
  A JSON object is the list of its keys with their values, in insertion order, which is
  the order in which the body is serialised. No object built here has a key twice;
  \<open>map_of\<close> reads a key.
\<close>

datatype json = JString string | JNumber int

type_synonym json_object = "(string \<times> json) list"

datatype api_error = HttpError nat | NetworkError

record response =
  status :: nat
  data :: "PYQSearchResult list"

type_synonym http_post = "string \<Rightarrow> json_object \<Rightarrow> api_error + response"

section \<open>The API service: \<open>searchPYQs\<close>\<close>

text \<open>
  \<^verbatim>\<open>
  const searchRequest = {
    query,
    limit: filters?.limit || 10,
    ...(filters?.subject && { subject: filters.subject }),
    ...(filters?.year && { year: filters.year }),
  };
  \<close>
  \<open>a || b\<close> is \<open>b\<close> when \<open>a\<close> is falsy: \<open>undefined\<close>, \<open>NaN\<close>, \<open>0\<close> or the empty
  string. Spreading a falsy value adds no key.
\<close>

definition or_default :: "jsnum option \<Rightarrow> int \<Rightarrow> int" where
  "or_default v d = (case v of Some (Num n) \<Rightarrow> if n \<noteq> 0 then n else d | _ \<Rightarrow> d)"

definition spread_string :: "string \<Rightarrow> string option \<Rightarrow> json_object" where
  "spread_string k v =
     (case v of Some s \<Rightarrow> if s \<noteq> [] then [(k, JString s)] else [] | None \<Rightarrow> [])"

definition spread_number :: "string \<Rightarrow> jsnum option \<Rightarrow> json_object" where
  "spread_number k v =
     (case v of Some (Num n) \<Rightarrow> if n \<noteq> 0 then [(k, JNumber n)] else [] | _ \<Rightarrow> [])"

definition searchRequest :: "string \<Rightarrow> search_filters option \<Rightarrow> json_object" where
  "searchRequest q filters =
     [(''query'', JString q),
      (''limit'', JNumber (or_default (Option.bind filters limit) 10))]
     @ spread_string ''subject'' (Option.bind filters subject)
     @ spread_number ''year'' (Option.bind filters year)"

text \<open>
  \<^verbatim>\<open>
  const response = await this.api.post('/pyqs/search', searchRequest);
  return response.data;
  \<close>
  A rejected \<open>post\<close> rejects \<open>searchPYQs\<close> with the same error.
\<close>

definition searchPYQs ::
  "http_post \<Rightarrow> string \<Rightarrow> search_filters option \<Rightarrow> api_error + PYQSearchResult list" where
  "searchPYQs post q filters =
     (case post ''/pyqs/search'' (searchRequest q filters) of
        Inl e \<Rightarrow> Inl e
      | Inr r \<Rightarrow> Inr (data r))"

text \<open>
  The later copy of the service is the one with the methods that the other components
  of the front end call, and the one the paginated search page goes with. Its request
  has two more keys:
  \<^verbatim>\<open>
    page: filters?.page || 1,
    timestamp: Date.now(), // Cache busting
  \<close>
  The clock is the argument \<open>now\<close>. The rest of \<open>searchPYQs\<close> is as before.
\<close>

definition searchRequest_paged :: "int \<Rightarrow> string \<Rightarrow> search_filters option \<Rightarrow> json_object" where
  "searchRequest_paged now q filters =
     [(''query'', JString q),
      (''limit'', JNumber (or_default (Option.bind filters limit) 10)),
      (''page'', JNumber (or_default (Option.bind filters page) 1)),
      (''timestamp'', JNumber now)]
     @ spread_string ''subject'' (Option.bind filters subject)
     @ spread_number ''year'' (Option.bind filters year)"

definition searchPYQs_paged ::
  "int \<Rightarrow> http_post \<Rightarrow> string \<Rightarrow> search_filters option
     \<Rightarrow> api_error + PYQSearchResult list" where
  "searchPYQs_paged now post q filters =
     (case post ''/pyqs/search'' (searchRequest_paged now q filters) of
        Inl e \<Rightarrow> Inl e
      | Inr r \<Rightarrow> Inr (data r))"

section \<open>Strings: \<open>trim\<close>, \<open>parseInt\<close>, \<open>toString\<close>\<close>

text \<open>
  The white space and line terminators of ECMAScript that lie in the Latin-1 range: tab,
  line feed, vertical tab, form feed, carriage return, space and no-break space.
\<close>

definition is_ws :: "char \<Rightarrow> bool" where
  "is_ws c = (of_char c \<in> set [9, 10, 11, 12, 13, 32, 160 :: nat])"

definition trim :: "string \<Rightarrow> string" where
  "trim s = rev (dropWhile is_ws (rev (dropWhile is_ws s)))"

text \<open>
  \<open>parseInt(string)\<close> with no radix: skip leading white space, read a sign, read the
  prefix \<open>0x\<close> or \<open>0X\<close> (then the radix is 16, else 10), take the longest run of digits
  of the radix; no digit gives \<open>NaN\<close>. The result is the mathematical integer, which a
  JavaScript number represents exactly up to \<open>2^53 - 1\<close>.
\<close>

definition digit_value :: "char \<Rightarrow> nat option" where
  "digit_value c =
     (let n = (of_char c :: nat) in
      if 48 \<le> n \<and> n \<le> 57 then Some (n - 48)
      else if 97 \<le> n \<and> n \<le> 122 then Some (n - 87)
      else if 65 \<le> n \<and> n \<le> 90 then Some (n - 55)
      else None)"

definition is_digit :: "nat \<Rightarrow> char \<Rightarrow> bool" where
  "is_digit R c = (case digit_value c of Some d \<Rightarrow> d < R | None \<Rightarrow> False)"

definition digits_value :: "nat \<Rightarrow> string \<Rightarrow> nat" where
  "digits_value R Z =
     foldl (\<lambda>a c. case digit_value c of Some d \<Rightarrow> a * R + d | None \<Rightarrow> a) 0 Z"

definition strip_sign :: "string \<Rightarrow> int \<times> string" where
  "strip_sign S =
     (case S of
        c # r \<Rightarrow> if c = CHR ''-'' then (- 1, r) else if c = CHR ''+'' then (1, r) else (1, S)
      | [] \<Rightarrow> (1, S))"

definition strip_prefix :: "string \<Rightarrow> nat \<times> string" where
  "strip_prefix S =
     (case S of
        a # b # r \<Rightarrow>
          if a = CHR ''0'' \<and> (b = CHR ''x'' \<or> b = CHR ''X'') then (16, r) else (10, S)
      | _ \<Rightarrow> (10, S))"

definition parseInt :: "string \<Rightarrow> jsnum" where
  "parseInt s =
     (let (sign, S1) = strip_sign (dropWhile is_ws s);
          (R, S2) = strip_prefix S1;
          Z = takeWhile (is_digit R) S2
      in if Z = [] then NaN else Num (sign * int (digits_value R Z)))"

text \<open>\<open>Number.prototype.toString\<close> on an integer: its decimal digits, after a minus sign
  when it is negative.\<close>

definition digit_char :: "nat \<Rightarrow> char" where
  "digit_char d = ''0123456789'' ! d"

fun digits :: "nat \<Rightarrow> string" where
  "digits n =
     (if n < 10 then [digit_char n] else digits (n div 10) @ [digit_char (n mod 10)])"

definition toString :: "int \<Rightarrow> string" where
  "toString n = (if n < 0 then CHR ''-'' # digits (nat (- n)) else digits (nat n))"

section \<open>The search page: state and \<open>handleSearch\<close>\<close>

text \<open>The \<open>useState\<close> cells of \<open>PYQSearchPage\<close>; \<open>filters\<close> is the object
  \<open>{ subject, year }\<close> of two strings.\<close>

record page_state =
  query :: string
  results :: "PYQSearchResult list"
  loading :: bool
  filters_subject :: string
  filters_year :: string
  showFilters :: bool
  currentPage :: int
  hasMoreResults :: bool
  totalResults :: int

definition initial_state :: page_state where
  "initial_state =
     \<lparr>query = [], results = [], loading = False, filters_subject = [], filters_year = [],
      showFilters = False, currentPage = 1, hasMoreResults = False, totalResults = 0\<rparr>"

definition subjects :: "string list" where
  "subjects =
     [''General Studies Paper 1'', ''General Studies Paper 2'', ''General Studies Paper 3'',
      ''General Studies Paper 4'', ''Essay'', ''Optional Subject'']"

definition years :: "int list" where
  "years = map (\<lambda>i. 2024 - int i) [0..<10]"

text \<open>
  \<^verbatim>\<open>
  const searchFilters = {
    ...(filters.subject && { subject: filters.subject }),
    ...(filters.year && { year: parseInt(filters.year) }),
    page,
    limit: 10,
  };
  \<close>
\<close>

definition searchFilters :: "string \<Rightarrow> string \<Rightarrow> int \<Rightarrow> search_filters" where
  "searchFilters fsubject fyear p =
     \<lparr>subject = (if fsubject \<noteq> [] then Some fsubject else None),
      year = (if fyear \<noteq> [] then Some (parseInt fyear) else None),
      page = Some (Num p),
      limit = Some (Num 10)\<rparr>"

text \<open>
  \<open>handleSearch\<close> is asynchronous. Up to the \<open>await\<close> it checks the query, sets
  \<open>loading\<close> and calls the service; when the call settles it runs the rest of the
  \<open>try\<close> block or the \<open>catch\<close>, then the \<open>finally\<close>. A call of the service is
  recorded by its arguments.
\<close>

type_synonym api_call = "string \<times> search_filters"

definition handleSearch_begin :: "page_state \<Rightarrow> int \<Rightarrow> (page_state \<times> api_call) option" where
  "handleSearch_begin st p =
     (if trim (query st) = [] then None
      else Some (st\<lparr>loading := True\<rparr>,
                 (query st, searchFilters (filters_subject st) (filters_year st) p)))"

definition handleSearch_resolved ::
  "page_state \<Rightarrow> int \<Rightarrow> PYQSearchResult list \<Rightarrow> page_state" where
  "handleSearch_resolved st p searchResults =
     st\<lparr>results := searchResults,
        currentPage := p,
        hasMoreResults := (length searchResults = 10),
        totalResults := (p - 1) * 10 + int (length searchResults),
        loading := False\<rparr>"

definition handleSearch_rejected :: "page_state \<Rightarrow> page_state" where
  "handleSearch_rejected st = st\<lparr>loading := False\<rparr>"

text \<open>How the promise that \<open>handleSearch\<close> returns settles.\<close>

datatype settled = Resolved | Rejected api_error

text \<open>One call of \<open>handleSearch\<close> run to its end with nothing else in between: the new
  state, the calls of the service it made, and how its promise settled.\<close>

definition handleSearch ::
  "http_post \<Rightarrow> page_state \<Rightarrow> int \<Rightarrow> page_state \<times> api_call list \<times> settled" where
  "handleSearch post st p =
     (case handleSearch_begin st p of
        None \<Rightarrow> (st, [], Resolved)
      | Some (st1, (q, f)) \<Rightarrow>
          (case searchPYQs post q (Some f) of
             Inr searchResults \<Rightarrow> (handleSearch_resolved st1 p searchResults, [(q, f)], Resolved)
           | Inl e \<Rightarrow> (handleSearch_rejected st1, [(q, f)], Resolved)))"

text \<open>The same call of \<open>handleSearch\<close> over the later copy of the service, made at
  the time \<open>now\<close>.\<close>

definition handleSearch_paged ::
  "int \<Rightarrow> http_post \<Rightarrow> page_state \<Rightarrow> int \<Rightarrow> page_state \<times> api_call list \<times> settled" where
  "handleSearch_paged now post st p =
     (case handleSearch_begin st p of
        None \<Rightarrow> (st, [], Resolved)
      | Some (st1, (q, f)) \<Rightarrow>
          (case searchPYQs_paged now post q (Some f) of
             Inr searchResults \<Rightarrow> (handleSearch_resolved st1 p searchResults, [(q, f)], Resolved)
           | Inl e \<Rightarrow> (handleSearch_rejected st1, [(q, f)], Resolved)))"

text \<open>
  The sources also hold an earlier version of the page, without pagination. Its
  \<open>handleSearch\<close> takes no argument, passes only the filters that are set, and on success
  stores the results.
\<close>

record page_state_v1 =
  v1_query :: string
  v1_results :: "PYQSearchResult list"
  v1_loading :: bool
  v1_filters_subject :: string
  v1_filters_year :: string
  v1_showFilters :: bool

definition searchFilters_v1 :: "string \<Rightarrow> string \<Rightarrow> search_filters" where
  "searchFilters_v1 fsubject fyear =
     \<lparr>subject = (if fsubject \<noteq> [] then Some fsubject else None),
      year = (if fyear \<noteq> [] then Some (parseInt fyear) else None),
      page = None,
      limit = None\<rparr>"

definition handleSearch_v1 ::
  "http_post \<Rightarrow> page_state_v1 \<Rightarrow> page_state_v1 \<times> api_call list \<times> settled" where
  "handleSearch_v1 post st =
     (if trim (v1_query st) = [] then (st, [], Resolved)
      else
        (let f = searchFilters_v1 (v1_filters_subject st) (v1_filters_year st) in
         case searchPYQs post (v1_query st) (Some f) of
           Inr searchResults \<Rightarrow>
             (st\<lparr>v1_results := searchResults, v1_loading := False\<rparr>, [(v1_query st, f)], Resolved)
         | Inl e \<Rightarrow> (st\<lparr>v1_loading := False\<rparr>, [(v1_query st, f)], Resolved)))"

text \<open>The pagination controls are rendered when there are results; \<open>Previous\<close> has
  \<open>disabled={currentPage === 1 || loading}\<close>, \<open>Next\<close> has
  \<open>disabled={!hasMoreResults || loading}\<close>.\<close>

definition pagination_shown :: "page_state \<Rightarrow> bool" where
  "pagination_shown st = (results st \<noteq> [])"

definition previous_disabled :: "page_state \<Rightarrow> bool" where
  "previous_disabled st = (currentPage st = 1 \<or> loading st)"

definition next_disabled :: "page_state \<Rightarrow> bool" where
  "next_disabled st = (\<not> hasMoreResults st \<or> loading st)"

section \<open>The search page as a reactive system\<close>

text \<open>
  Between the start of a search and the arrival of its response the page keeps reacting
  to the user. A configuration is the rendered state together with the requests in
  flight, the calls of the service made so far, and the bookkeeping of the effect that
  searches again when a filter changes: the ref \<open>isAutoSearchingRef\<close>, the debounce timer
  (with the query and filters its closure captured) and whether the last run of the effect
  returned a cleanup function.
\<close>

datatype pending = Manual int | Auto

record config =
  ui :: page_state
  inflight :: "pending list"
  issued :: "api_call list"
  isAutoSearching :: bool
  autoTimer :: "(string \<times> string \<times> string) option"
  cleanup :: bool

definition initial_config :: config where
  "initial_config =
     \<lparr>ui = initial_state, inflight = [], issued = [], isAutoSearching = False,
      autoTimer = None, cleanup = False\<rparr>"

datatype event =
    SetQuery string
  | ToggleFilters
  | SetSubject string
  | SetYear string
  | ClickSearch
  | PressEnter
  | ClickPrevious
  | ClickNext
  | TimerFires
  | Resolves nat "PYQSearchResult list"
  | Rejects nat api_error

definition begin_search :: "config \<Rightarrow> int \<Rightarrow> config" where
  "begin_search c p =
     (case handleSearch_begin (ui c) p of
        None \<Rightarrow> c
      | Some (st1, call) \<Rightarrow>
          c\<lparr>ui := st1, inflight := inflight c @ [Manual p], issued := issued c @ [call]\<rparr>)"

text \<open>
  The effect on \<open>[filters.subject, filters.year]\<close>: the cleanup of its previous run
  (clear the timer, reset the ref), then, when the query is not blank, there are results
  and no automatic search is marked as running, a timer of 200 ms.
\<close>

definition filters_changed :: "config \<Rightarrow> page_state \<Rightarrow> config" where
  "filters_changed c st' =
     (let c1 = (if cleanup c then c\<lparr>autoTimer := None, isAutoSearching := False\<rparr> else c) in
      if trim (query st') \<noteq> [] \<and> results st' \<noteq> [] \<and> \<not> isAutoSearching c1
      then c1\<lparr>ui := st',
              autoTimer := Some (query st', filters_subject st', filters_year st'),
              cleanup := True\<rparr>
      else c1\<lparr>ui := st', cleanup := False\<rparr>)"

text \<open>\<open>performSearch\<close>, the body of the timer: page 1, limit 10.\<close>

definition performSearch_begin :: "config \<Rightarrow> config" where
  "performSearch_begin c =
     (case autoTimer c of
        None \<Rightarrow> c
      | Some (q, fsubject, fyear) \<Rightarrow>
          c\<lparr>ui := (ui c)\<lparr>loading := True\<rparr>,
            isAutoSearching := True,
            autoTimer := None,
            inflight := inflight c @ [Auto],
            issued := issued c @ [(q, searchFilters fsubject fyear 1)]\<rparr>)"

definition performSearch_resolved :: "page_state \<Rightarrow> PYQSearchResult list \<Rightarrow> page_state" where
  "performSearch_resolved st searchResults =
     st\<lparr>results := searchResults,
        currentPage := 1,
        hasMoreResults := (length searchResults = 10),
        totalResults := int (length searchResults),
        loading := False\<rparr>"

text \<open>The \<open>i\<close>-th request in flight settles.\<close>

definition settle :: "config \<Rightarrow> nat \<Rightarrow> api_error + PYQSearchResult list \<Rightarrow> config" where
  "settle c i outcome =
     (if i < length (inflight c) then
        let rest = take i (inflight c) @ drop (Suc i) (inflight c) in
        (case inflight c ! i of
           Manual p \<Rightarrow>
             (case outcome of
                Inr rs \<Rightarrow> c\<lparr>ui := handleSearch_resolved (ui c) p rs, inflight := rest\<rparr>
              | Inl e \<Rightarrow> c\<lparr>ui := handleSearch_rejected (ui c), inflight := rest\<rparr>)
         | Auto \<Rightarrow>
             (case outcome of
                Inr rs \<Rightarrow>
                  c\<lparr>ui := performSearch_resolved (ui c) rs, inflight := rest,
                    isAutoSearching := False\<rparr>
              | Inl e \<Rightarrow>
                  c\<lparr>ui := (ui c)\<lparr>loading := False\<rparr>, inflight := rest,
                    isAutoSearching := False\<rparr>))
      else c)"

text \<open>
  A click on a button that is disabled or not rendered, and the choice of a value that
  a select does not offer, change nothing. The Enter key in the query box calls
  \<open>handleSearch(1)\<close> whatever \<open>loading\<close> is.
\<close>

fun apply_event :: "config \<Rightarrow> event \<Rightarrow> config" where
  "apply_event c (SetQuery q) = c\<lparr>ui := (ui c)\<lparr>query := q\<rparr>\<rparr>"
| "apply_event c ToggleFilters = c\<lparr>ui := (ui c)\<lparr>showFilters := \<not> showFilters (ui c)\<rparr>\<rparr>"
| "apply_event c (SetSubject s) =
     (if showFilters (ui c) \<and> s \<in> set ([] # subjects) \<and> s \<noteq> filters_subject (ui c)
      then filters_changed c ((ui c)\<lparr>filters_subject := s\<rparr>) else c)"
| "apply_event c (SetYear y) =
     (if showFilters (ui c) \<and> y \<in> set ([] # map toString years) \<and> y \<noteq> filters_year (ui c)
      then filters_changed c ((ui c)\<lparr>filters_year := y\<rparr>) else c)"
| "apply_event c ClickSearch = (if loading (ui c) then c else begin_search c 1)"
| "apply_event c PressEnter = begin_search c 1"
| "apply_event c ClickPrevious =
     (if pagination_shown (ui c) \<and> \<not> previous_disabled (ui c)
      then begin_search c (currentPage (ui c) - 1) else c)"
| "apply_event c ClickNext =
     (if pagination_shown (ui c) \<and> \<not> next_disabled (ui c)
      then begin_search c (currentPage (ui c) + 1) else c)"
| "apply_event c TimerFires = performSearch_begin c"
| "apply_event c (Resolves i rs) = settle c i (Inr rs)"
| "apply_event c (Rejects i e) = settle c i (Inl e)"

definition run :: "event list \<Rightarrow> config" where
  "run evs = foldl apply_event initial_config evs"

definition page_ok :: "api_call \<Rightarrow> bool" where
  "page_ok call = (case page (snd call) of Some (Num n) \<Rightarrow> 1 \<le> n | _ \<Rightarrow> False)"

definition pending_ok :: "pending \<Rightarrow> bool" where
  "pending_ok x = (case x of Manual p \<Rightarrow> 1 \<le> p | Auto \<Rightarrow> True)"

definition pages_valid :: "config \<Rightarrow> bool" where
  "pages_valid c =
     (1 \<le> currentPage (ui c) \<and> list_all pending_ok (inflight c) \<and> list_all page_ok (issued c))"

section \<open>The back end, as the specification describes it\<close>

text \<open>
  Modelled from the spec: the Result Cache. The Python service that holds the cache and
  its \<open>_is_cache_valid\<close> is not among the sources; the performance notes only name it and
  give the five-minute lifetime. The specification states when a lookup finds an entry:
  "a cache entry created at time T is treated as absent for any lookup at time
  \<open>\<ge> T + TTL\<close>, and present for any lookup at time \<open>< T + TTL\<close>". This settles every
  instant, and with it the contract of the cache holds: "\<open>get(fingerprint) -> CacheEntry
  | absent\<close>. An entry is treated as absent if \<open>now - createdAt > TTL\<close>, even if still
  physically present", and "\<open>put(fingerprint, results)\<close> unconditionally overwrites any
  existing entry for that fingerprint with a freshly timestamped entry". Times are in
  seconds. The field \<open>results\<close> of an entry is called \<open>cached\<close> here, \<open>results\<close>
  being a field of the page state.
\<close>

record 'a CacheEntry =
  fingerprint :: string
  cached :: "'a list"
  createdAt :: int

definition TTL :: int where
  "TTL = 5 * 60"

definition cache_get ::
  "(string \<rightharpoonup> 'a CacheEntry) \<Rightarrow> int \<Rightarrow> string \<Rightarrow> 'a CacheEntry option" where
  "cache_get store now fp =
     (case store fp of
        None \<Rightarrow> None
      | Some e \<Rightarrow> if now \<ge> createdAt e + TTL then None else Some e)"

definition cache_put ::
  "(string \<rightharpoonup> 'a CacheEntry) \<Rightarrow> int \<Rightarrow> string \<Rightarrow> 'a list \<Rightarrow> (string \<rightharpoonup> 'a CacheEntry)" where
  "cache_put store now fp rs = store(fp \<mapsto> \<lparr>fingerprint = fp, cached = rs, createdAt = now\<rparr>)"

text \<open>
  Modelled from the spec: the Pagination Slicer, which is part of the same absent
  service: "\<open>slice(results, page \<ge> 1, limit \<ge> 1)\<close> -> window of up to \<open>limit\<close> items
  starting at offset \<open>(page-1)*limit\<close>. If the offset exceeds the length of \<open>results\<close>,
  returns an empty window".
\<close>

definition slice :: "'a list \<Rightarrow> int \<Rightarrow> int \<Rightarrow> 'a list" where
  "slice rs p l = take (nat l) (drop (nat ((p - 1) * l)) rs)"

text \<open>
  Modelled from the spec: the search endpoint, absent with the rest of the back end.
  Its request is "\<open>{ query, subject?, year?, page?=1, limit?=10 }\<close>"; the orchestrator
  validates first ("empty/whitespace query, or invalid pagination parameters (page < 1,
  limit < 1)" is \<open>InvalidQuery\<close>, status 400), obtains the full ranked list from the
  cache or the pipeline, and answers with the slice. The ranked list (here \<open>ranked\<close>,
  which may fail) depends on the query and the filters only: "pagination parameters are
  excluded from the key, by design, so that paging reuses the cached full result set".
\<close>

type_synonym ranking = "string \<Rightarrow> json option \<Rightarrow> json option \<Rightarrow> api_error + PYQSearchResult list"

definition search_endpoint :: "ranking \<Rightarrow> http_post" where
  "search_endpoint ranked url body =
     (case map_of body ''query'' of
        Some (JString q) \<Rightarrow>
          (let p = (case map_of body ''page'' of Some (JNumber n) \<Rightarrow> n | _ \<Rightarrow> 1);
               l = (case map_of body ''limit'' of Some (JNumber n) \<Rightarrow> n | _ \<Rightarrow> 10)
           in if trim q = [] \<or> p < 1 \<or> l < 1 then Inl (HttpError 400)
              else (case ranked q (map_of body ''subject'') (map_of body ''year'') of
                      Inl e \<Rightarrow> Inl e
                    | Inr full \<Rightarrow> Inr \<lparr>status = 200, data = slice full p l\<rparr>))
      | _ \<Rightarrow> Inl (HttpError 400))"

section \<open>Sample data\<close>

definition sample_item :: PYQSearchResult where
  "sample_item =
     \<lparr>pyq_id = 7, pyq_question = ''Discuss cooperative federalism.'', pyq_year = 2019,
      pyq_paper = ''GS2'', pyq_subject = ''General Studies Paper 2'',
      pyq_topics = [''federalism''], pyq_marks = 15, pyq_difficulty = ''medium'',
      pyq_similarity_score = 0.5\<rparr>"

text \<open>A server that cannot be reached, one that answers every request with the same
  items, and a back end whose ranked list for every query is the same.\<close>

definition offline_post :: http_post where
  "offline_post url body = Inl NetworkError"

definition fixed_post :: "PYQSearchResult list \<Rightarrow> http_post" where
  "fixed_post rs url body = Inr \<lparr>status = 200, data = rs\<rparr>"

definition stored_results :: "PYQSearchResult list \<Rightarrow> ranking" where
  "stored_results rs q fsubject fyear = Inr rs"

definition numbered_items :: "nat \<Rightarrow> PYQSearchResult list" where
  "numbered_items n = map (\<lambda>i. sample_item\<lparr>pyq_id := int i\<rparr>) [0..<n]"

definition no_entries :: "string \<rightharpoonup> nat CacheEntry" where
  "no_entries = Map.empty"

definition earlier_state :: page_state_v1 where
  "earlier_state =
     \<lparr>v1_query = '' '', v1_results = [sample_item], v1_loading = False,
      v1_filters_subject = [], v1_filters_year = [], v1_showFilters = False\<rparr>"

definition browsing_state :: page_state where
  "browsing_state =
     \<lparr>query = ''federalism'', results = [sample_item], loading = False,
      filters_subject = ''Essay'', filters_year = ''2019'', showFilters = True,
      currentPage = 3, hasMoreResults = True, totalResults = 21\<rparr>"

section \<open>The request that \<open>searchPYQs\<close> sends\<close>

lemma searchRequest_limit:
  "map_of (searchRequest q filters) ''limit''
     = Some (JNumber (or_default (Option.bind filters limit) 10))"
  by (simp add: searchRequest_def)

lemma searchRequest_query: "map_of (searchRequest q filters) ''query'' = Some (JString q)"
  by (simp add: searchRequest_def)

lemma searchRequest_no_page: "map_of (searchRequest q filters) ''page'' = None"
  by (simp add: searchRequest_def spread_string_def spread_number_def
      split: option.splits jsnum.splits)

lemma or_default_nonzero: "d \<noteq> 0 \<Longrightarrow> or_default v d \<noteq> 0"
  by (simp add: or_default_def split: option.splits jsnum.splits)

text \<open>The later copy of the service does send the page it is given.\<close>

lemma searchRequest_paged_page:
  "map_of (searchRequest_paged now q (Some (searchFilters s y p))) ''page''
     = Some (JNumber (if p \<noteq> 0 then p else 1))"
  by (simp add: searchRequest_paged_def searchFilters_def or_default_def)

lemma searchRequest_paged_page_key:
  "map_of (searchRequest_paged now q filters) ''page''
     = Some (JNumber (or_default (Option.bind filters page) 1))"
  by (simp add: searchRequest_paged_def)

lemma searchRequest_paged_limit:
  "map_of (searchRequest_paged now q filters) ''limit''
     = Some (JNumber (or_default (Option.bind filters limit) 10))"
  by (simp add: searchRequest_paged_def)

lemma searchRequest_paged_query:
  "map_of (searchRequest_paged now q filters) ''query'' = Some (JString q)"
  by (simp add: searchRequest_paged_def)

text \<open>
  Claim C8. A limit of \<open>0\<close> supplied by the caller is replaced by \<open>10\<close> in the outgoing
  request, exactly as a missing limit is, so no call of the search operation sends a
  request for a zero-item page.
\<close>

theorem searchPYQs_zero_limit_becomes_default:
  "map_of (searchRequest q (Some (f\<lparr>limit := Some (Num 0)\<rparr>))) ''limit'' = Some (JNumber 10)
   \<and> map_of (searchRequest q (Some (f\<lparr>limit := None\<rparr>))) ''limit'' = Some (JNumber 10)
   \<and> map_of (searchRequest q None) ''limit'' = Some (JNumber 10)
   \<and> map_of (searchRequest q filters) ''limit'' \<noteq> Some (JNumber 0)"
proof -
  have "or_default (Option.bind filters limit) 10 \<noteq> 0"
    by (rule or_default_nonzero) simp
  then show ?thesis
    by (simp add: searchRequest_limit or_default_def)
qed

text \<open>
  Claim C5 says that a limit the caller supplies is forwarded unchanged. A supplied
  limit of \<open>0\<close> is not: in both copies of the service the request carries \<open>10\<close>.
\<close>

theorem zero_limit_not_forwarded:
  "map_of (searchRequest ''polity''
      (Some \<lparr>subject = None, year = None, page = None, limit = Some (Num 0)\<rparr>)) ''limit''
   = Some (JNumber 10)
   \<and> map_of (searchRequest_paged 1700000000000 ''polity''
      (Some \<lparr>subject = None, year = None, page = None, limit = Some (Num 0)\<rparr>)) ''limit''
   = Some (JNumber 10)"
  by (simp add: searchRequest_def searchRequest_paged_def or_default_def)

text \<open>
  Claim C5, amended. When the caller supplies no limit the request sent to the search
  endpoint carries \<open>limit = 10\<close>; a supplied integer limit other than \<open>0\<close> is forwarded
  unchanged; a supplied \<open>0\<close> or \<open>NaN\<close> is replaced by \<open>10\<close>; and a request omitting
  the page defaults to \<open>page = 1\<close>. The clauses on the limit hold in both copies of the
  service; the page is a key of the later copy.
\<close>

theorem searchPYQs_limit_forwarding:
  "(Option.bind filters limit = None \<longrightarrow>
      map_of (searchRequest q filters) ''limit'' = Some (JNumber 10)
      \<and> map_of (searchRequest_paged now q filters) ''limit'' = Some (JNumber 10))
   \<and> (Option.bind filters limit = Some (Num n) \<and> n \<noteq> 0 \<longrightarrow>
      map_of (searchRequest q filters) ''limit'' = Some (JNumber n)
      \<and> map_of (searchRequest_paged now q filters) ''limit'' = Some (JNumber n))
   \<and> (Option.bind filters limit = Some (Num 0) \<or> Option.bind filters limit = Some NaN \<longrightarrow>
      map_of (searchRequest q filters) ''limit'' = Some (JNumber 10)
      \<and> map_of (searchRequest_paged now q filters) ''limit'' = Some (JNumber 10))
   \<and> (Option.bind filters page = None \<longrightarrow>
      map_of (searchRequest_paged now q filters) ''page'' = Some (JNumber 1))"
  by (auto simp add: searchRequest_limit searchRequest_paged_limit searchRequest_paged_page_key
      or_default_def)

theorem searchPYQs_limit_forwarding_witness:
  "map_of (searchRequest ''polity'' None) ''limit'' = Some (JNumber 10)
   \<and> map_of (searchRequest_paged 1700000000000 ''polity'' None) ''page'' = Some (JNumber 1)
   \<and> map_of (searchRequest_paged 1700000000000 ''polity''
        (Some \<lparr>subject = None, year = None, page = None, limit = Some (Num 25)\<rparr>)) ''limit''
      = Some (JNumber 25)
   \<and> map_of (searchRequest ''polity''
        (Some \<lparr>subject = None, year = None, page = Some (Num 3), limit = Some NaN\<rparr>)) ''limit''
      = Some (JNumber 10)"
  using searchPYQs_limit_forwarding [of None "''polity''" 1700000000000 1]
    searchPYQs_limit_forwarding
      [of "Some \<lparr>subject = None, year = None, page = None, limit = Some (Num 25)\<rparr>"
          "''polity''" 1700000000000 25]
    searchPYQs_limit_forwarding
      [of "Some \<lparr>subject = None, year = None, page = Some (Num 3), limit = Some NaN\<rparr>"
          "''polity''" 1700000000000 1]
  by simp

section \<open>Decimal strings\<close>

declare digits.simps [simp del]

lemma digit_value_digit_char: "d < 10 \<Longrightarrow> digit_value (digit_char d) = Some d"
proof -
  assume "d < 10"
  then have "d \<in> {0, 1, 2, 3, 4, 5, 6, 7, 8, 9}" by auto
  then show ?thesis
    by (auto simp: digit_value_def digit_char_def)
qed

lemma is_digit_digit_char: "d < 10 \<Longrightarrow> is_digit 10 (digit_char d)"
  by (simp add: is_digit_def digit_value_digit_char)

lemma digits_all_digit: "list_all (is_digit 10) (digits n)"
proof (induction n rule: digits.induct)
  case (1 n)
  show ?case
    by (subst digits.simps) (use 1 in \<open>auto simp: is_digit_digit_char\<close>)
qed

lemma digits_nonempty: "digits n \<noteq> []"
  by (subst digits.simps) simp

lemma digits_value_snoc:
  "digits_value R (xs @ [c]) =
     (case digit_value c of Some d \<Rightarrow> digits_value R xs * R + d | None \<Rightarrow> digits_value R xs)"
  unfolding digits_value_def by (simp split: option.splits)

lemma digits_value_digits: "digits_value 10 (digits n) = n"
proof (induction n rule: digits.induct)
  case (1 n)
  show ?case
  proof (cases "n < 10")
    case True
    then show ?thesis
      by (subst digits.simps) (simp add: digits_value_def digit_value_digit_char)
  next
    case False
    then have "digits_value 10 (digits (n div 10)) = n div 10"
      using 1 by simp
    with False show ?thesis
      by (subst digits.simps) (simp add: digits_value_snoc digit_value_digit_char)
  qed
qed

lemma digit_not_ws: "is_digit 10 c \<Longrightarrow> \<not> is_ws c"
  by (auto simp: is_digit_def digit_value_def is_ws_def Let_def split: if_splits)

lemma digit_not_sign_or_x:
  "is_digit 10 c \<Longrightarrow> c \<noteq> CHR ''-'' \<and> c \<noteq> CHR ''+'' \<and> c \<noteq> CHR ''x'' \<and> c \<noteq> CHR ''X''"
  by (auto simp: is_digit_def digit_value_def Let_def split: if_splits)

text \<open>On a non-empty string of decimal digits \<open>parseInt\<close> finds no white space, no sign
  and no hexadecimal prefix, and reads all of it.\<close>

lemma parseInt_decimal:
  assumes all: "list_all (is_digit 10) Z" and ne: "Z \<noteq> []"
  shows "parseInt Z = Num (int (digits_value 10 Z))"
proof -
  obtain c r where Z: "Z = c # r"
    using ne by (cases Z) auto
  have c: "is_digit 10 c"
    using all Z by simp
  have ws: "dropWhile is_ws Z = Z"
    using Z digit_not_ws [OF c] by simp
  have sg: "strip_sign Z = (1, Z)"
    using Z digit_not_sign_or_x [OF c] by (simp add: strip_sign_def)
  have px: "strip_prefix Z = (10, Z)"
  proof (cases r)
    case Nil
    then show ?thesis using Z by (simp add: strip_prefix_def)
  next
    case (Cons b r')
    then have "is_digit 10 b" using all Z by simp
    from digit_not_sign_or_x [OF this] show ?thesis
      using Z Cons by (simp add: strip_prefix_def)
  qed
  have tw: "takeWhile (is_digit 10) Z = Z"
    using all by (simp add: list_all_iff)
  show ?thesis
    using ne by (simp add: parseInt_def ws sg px tw)
qed

lemma parseInt_toString: "0 \<le> n \<Longrightarrow> parseInt (toString n) = Num n"
  by (simp add: toString_def parseInt_decimal digits_all_digit digits_nonempty
      digits_value_digits)

lemma toString_nonempty: "toString n \<noteq> []"
  by (simp add: toString_def digits_nonempty)

text \<open>
  Claim C10. A filter that is not set (the empty string for the subject or for the year)
  adds no key to the request body, so the body built from empty filter strings is the
  body built with no filters at all, key for key; an empty subject handed to the service
  itself is dropped in the same way. A subject that is set is sent as it is, and a year
  that is set, which the page holds as the decimal string of a positive integer, is sent
  as that integer.
\<close>

theorem unset_filters_are_omitted:
  "searchRequest q (Some (searchFilters [] [] p))
     = [(''query'', JString q), (''limit'', JNumber 10)]
   \<and> searchRequest q (Some (searchFilters [] [] p)) = searchRequest q None
   \<and> searchRequest q (Some (f\<lparr>subject := Some []\<rparr>)) = searchRequest q (Some (f\<lparr>subject := None\<rparr>))
   \<and> (fsubject \<noteq> [] \<longrightarrow>
        map_of (searchRequest q (Some (searchFilters fsubject fyear p))) ''subject''
          = Some (JString fsubject))
   \<and> (0 < n \<and> n \<le> 9007199254740991 \<longrightarrow>
        map_of (searchRequest q (Some (searchFilters fsubject (toString n) p))) ''year''
          = Some (JNumber n))"
proof -
  have a: "searchRequest q (Some (searchFilters [] [] p))
     = [(''query'', JString q), (''limit'', JNumber 10)]"
    by (simp add: searchRequest_def searchFilters_def or_default_def spread_string_def
        spread_number_def)
  have b: "searchRequest q None = [(''query'', JString q), (''limit'', JNumber 10)]"
    by (simp add: searchRequest_def or_default_def spread_string_def spread_number_def)
  have c: "searchRequest q (Some (f\<lparr>subject := Some []\<rparr>))
     = searchRequest q (Some (f\<lparr>subject := None\<rparr>))"
    by (simp add: searchRequest_def spread_string_def)
  have d: "fsubject \<noteq> [] \<longrightarrow>
        map_of (searchRequest q (Some (searchFilters fsubject fyear p))) ''subject''
          = Some (JString fsubject)"
    by (simp add: searchRequest_def searchFilters_def spread_string_def)
  have e: "0 < n \<and> n \<le> 9007199254740991 \<longrightarrow>
        map_of (searchRequest q (Some (searchFilters fsubject (toString n) p))) ''year''
          = Some (JNumber n)"
    by (simp add: searchRequest_def searchFilters_def spread_string_def spread_number_def
        toString_nonempty parseInt_toString)
  from a b c d e show ?thesis by simp
qed

theorem unset_filters_are_omitted_witness:
  "map_of (searchRequest ''federalism'' (Some (searchFilters ''Essay'' ''2019'' 1))) ''subject''
     = Some (JString ''Essay'')
   \<and> map_of (searchRequest ''federalism'' (Some (searchFilters ''Essay'' ''2019'' 1))) ''year''
     = Some (JNumber 2019)
   \<and> toString 2019 = ''2019''"
proof -
  have ts: "toString 2019 = ''2019''"
    by (simp add: toString_def digits.simps digit_char_def)
  show ?thesis
    using unset_filters_are_omitted
      [of "''federalism''" 1 "searchFilters [] [] 1" "''Essay''" "''2019''" 2019]
    by (simp add: ts)
qed

section \<open>One call of \<open>handleSearch\<close>\<close>

text \<open>
  Claim C2. When a search completes, the request it sent had limit 10, and the flag
  \<open>hasMoreResults\<close> is set to whether exactly 10 items came back, in \<open>handleSearch\<close> and
  in the automatic search alike; a page of fewer than 10 items clears the flag, which
  disables the Next button, and a click on Next then does nothing.
\<close>

theorem hasMore_iff_full_page:
  assumes "trim (query st) \<noteq> []"
    and "post ''/pyqs/search''
           (searchRequest (query st) (Some (searchFilters (filters_subject st) (filters_year st) p)))
         = Inr r"
  shows "map_of (searchRequest (query st)
            (Some (searchFilters (filters_subject st) (filters_year st) p))) ''limit''
           = Some (JNumber 10)
     \<and> results (fst (handleSearch post st p)) = data r
     \<and> hasMoreResults (fst (handleSearch post st p)) = (length (data r) = 10)
     \<and> hasMoreResults (performSearch_resolved st (data r)) = (length (data r) = 10)
     \<and> (length (data r) < 10 \<longrightarrow>
          \<not> hasMoreResults (fst (handleSearch post st p))
          \<and> next_disabled (fst (handleSearch post st p)))
     \<and> (\<not> hasMoreResults (ui c) \<longrightarrow> apply_event c ClickNext = c)"
  using assms
  by (simp add: handleSearch_def handleSearch_begin_def searchPYQs_def
      handleSearch_resolved_def performSearch_resolved_def next_disabled_def
      searchRequest_limit searchFilters_def or_default_def)

theorem hasMore_iff_full_page_witness:
  "hasMoreResults
     (fst (handleSearch (fixed_post (replicate 10 sample_item))
        (initial_state\<lparr>query := ''federalism''\<rparr>) 1))
   \<and> \<not> hasMoreResults
     (fst (handleSearch (fixed_post [sample_item, sample_item])
        (initial_state\<lparr>query := ''federalism''\<rparr>) 1))
   \<and> next_disabled
     (fst (handleSearch (fixed_post [sample_item, sample_item])
        (initial_state\<lparr>query := ''federalism''\<rparr>) 1))
   \<and> apply_event initial_config ClickNext = initial_config"
proof -
  have q: "trim (query (initial_state\<lparr>query := ''federalism''\<rparr>)) \<noteq> []"
    by (simp add: trim_def is_ws_def)
  have full: "fixed_post (replicate 10 sample_item) ''/pyqs/search''
      (searchRequest (query (initial_state\<lparr>query := ''federalism''\<rparr>))
        (Some (searchFilters (filters_subject (initial_state\<lparr>query := ''federalism''\<rparr>))
           (filters_year (initial_state\<lparr>query := ''federalism''\<rparr>)) 1)))
      = Inr \<lparr>status = 200, data = replicate 10 sample_item\<rparr>"
    by (simp add: fixed_post_def)
  have short: "fixed_post [sample_item, sample_item] ''/pyqs/search''
      (searchRequest (query (initial_state\<lparr>query := ''federalism''\<rparr>))
        (Some (searchFilters (filters_subject (initial_state\<lparr>query := ''federalism''\<rparr>))
           (filters_year (initial_state\<lparr>query := ''federalism''\<rparr>)) 1)))
      = Inr \<lparr>status = 200, data = [sample_item, sample_item]\<rparr>"
    by (simp add: fixed_post_def)
  have idle: "\<not> hasMoreResults (ui initial_config)"
    by (simp add: initial_config_def initial_state_def)
  show ?thesis
    using
      hasMore_iff_full_page
        [where post = "fixed_post (replicate 10 sample_item)" and c = initial_config, OF q full]
      hasMore_iff_full_page
        [where post = "fixed_post [sample_item, sample_item]" and c = initial_config, OF q short]
      idle
    by simp
qed

text \<open>
  Claim C3 says that a search with a blank query is rejected as invalid, with the error
  \<open>InvalidQuery\<close> (which the search API reports with status 400). The guard of
  \<open>handleSearch\<close> returns instead: with a query of three spaces the promise resolves
  rather than rejects, no call is made, and the state, which has no field for an error,
  is what it was.
\<close>

theorem blank_query_resolves_quietly:
  "handleSearch offline_post (initial_state\<lparr>query := ''   ''\<rparr>) 1
     = (initial_state\<lparr>query := ''   ''\<rparr>, [], Resolved)
   \<and> snd (snd (handleSearch offline_post (initial_state\<lparr>query := ''   ''\<rparr>) 1))
       \<noteq> Rejected (HttpError 400)"
  by (simp add: handleSearch_def handleSearch_begin_def trim_def is_ws_def)

text \<open>
  Claim C3, amended. For every query that is empty or consists of white space only,
  a search makes no call of the search API and changes nothing on the page; it returns
  quietly, and no error is raised or shown. Both versions of the page behave so.
\<close>

theorem blank_query_is_skipped:
  "(trim (query st) = [] \<longrightarrow> handleSearch post st p = (st, [], Resolved))
   \<and> (trim (v1_query st1) = [] \<longrightarrow> handleSearch_v1 post st1 = (st1, [], Resolved))"
  by (simp add: handleSearch_def handleSearch_begin_def handleSearch_v1_def)

theorem blank_query_is_skipped_witness:
  "trim [CHR 0x09, CHR '' '', CHR 0x0A] = []
   \<and> handleSearch (fixed_post [sample_item])
       (browsing_state\<lparr>query := [CHR 0x09, CHR '' '', CHR 0x0A]\<rparr>) 4
     = (browsing_state\<lparr>query := [CHR 0x09, CHR '' '', CHR 0x0A]\<rparr>, [], Resolved)
   \<and> handleSearch_v1 (fixed_post [sample_item]) earlier_state = (earlier_state, [], Resolved)"
proof -
  have blank: "trim (query (browsing_state\<lparr>query := [CHR 0x09, CHR '' '', CHR 0x0A]\<rparr>)) = []"
    by (simp add: trim_def is_ws_def)
  have blank1: "trim (v1_query earlier_state) = []"
    by (simp add: earlier_state_def trim_def is_ws_def)
  show ?thesis
    using blank blank1
      blank_query_is_skipped
        [where st = "browsing_state\<lparr>query := [CHR 0x09, CHR '' '', CHR 0x0A]\<rparr>"
           and post = "fixed_post [sample_item]" and p = 4 and ?st1.0 = earlier_state]
    by simp
qed

text \<open>
  Claim C9. When the call of the search API fails, the results, the current page, the
  flag \<open>hasMoreResults\<close> and the total count keep their values: the state after
  \<open>handleSearch\<close> is the state before it with \<open>loading\<close> reset to false.
\<close>

theorem failed_search_keeps_state:
  assumes "trim (query st) \<noteq> []"
    and "post ''/pyqs/search''
           (searchRequest (query st) (Some (searchFilters (filters_subject st) (filters_year st) p)))
         = Inl e"
  shows "fst (handleSearch post st p) = st\<lparr>loading := False\<rparr>
     \<and> results (fst (handleSearch post st p)) = results st
     \<and> currentPage (fst (handleSearch post st p)) = currentPage st
     \<and> hasMoreResults (fst (handleSearch post st p)) = hasMoreResults st
     \<and> totalResults (fst (handleSearch post st p)) = totalResults st"
  using assms
  by (simp add: handleSearch_def handleSearch_begin_def searchPYQs_def handleSearch_rejected_def)

theorem failed_search_keeps_state_witness:
  "fst (handleSearch offline_post browsing_state 4) = browsing_state
   \<and> currentPage (fst (handleSearch offline_post browsing_state 4)) = 3"
proof -
  have q: "trim (query browsing_state) \<noteq> []"
    by (simp add: browsing_state_def trim_def is_ws_def)
  have off: "offline_post ''/pyqs/search''
      (searchRequest (query browsing_state)
        (Some (searchFilters (filters_subject browsing_state) (filters_year browsing_state) 4)))
      = Inl NetworkError"
    by (simp add: offline_post_def)
  have idle: "browsing_state\<lparr>loading := False\<rparr> = browsing_state"
    by (simp add: browsing_state_def)
  have page: "currentPage browsing_state = 3"
    by (simp add: browsing_state_def)
  show ?thesis
    using failed_search_keeps_state [where post = offline_post, OF q off] idle page by simp
qed

section \<open>The page number under every sequence of events\<close>

lemma page_ok_searchFilters: "page_ok (q, searchFilters s y p) = (1 \<le> p)"
  by (simp add: page_ok_def searchFilters_def)

lemma begin_search_valid:
  assumes "pages_valid c" and "1 \<le> p"
  shows "pages_valid (begin_search c p)"
  using assms
  by (auto simp: begin_search_def handleSearch_begin_def pages_valid_def pending_ok_def
      page_ok_searchFilters)

lemma filters_changed_valid:
  assumes "pages_valid c" and "currentPage st' = currentPage (ui c)"
  shows "pages_valid (filters_changed c st')"
  using assms by (simp add: filters_changed_def pages_valid_def Let_def)

lemma performSearch_begin_valid:
  assumes "pages_valid c"
  shows "pages_valid (performSearch_begin c)"
  using assms
  by (auto simp: performSearch_begin_def pages_valid_def pending_ok_def page_ok_searchFilters
      split: option.splits)

lemma list_all_remove_nth:
  "list_all P xs \<Longrightarrow> list_all P (take i xs @ drop (Suc i) xs)"
  by (auto simp: list_all_iff dest: in_set_takeD in_set_dropD)

lemma settle_valid:
  assumes "pages_valid c"
  shows "pages_valid (settle c i outcome)"
proof (cases "i < length (inflight c)")
  case False
  then show ?thesis using assms by (simp add: settle_def)
next
  case True
  have all: "list_all pending_ok (inflight c)"
    using assms by (simp add: pages_valid_def)
  have rest: "list_all pending_ok (take i (inflight c) @ drop (Suc i) (inflight c))"
    using all by (rule list_all_remove_nth)
  have nth: "pending_ok (inflight c ! i)"
    using all True by (simp add: list_all_length)
  show ?thesis
  proof (cases "inflight c ! i")
    case (Manual p)
    then have "1 \<le> p" using nth by (simp add: pending_ok_def)
    then show ?thesis
      using assms True Manual rest
      by (cases outcome)
        (simp_all add: settle_def pages_valid_def handleSearch_resolved_def
          handleSearch_rejected_def Let_def)
  next
    case Auto
    then show ?thesis
      using assms True rest
      by (cases outcome)
        (simp_all add: settle_def pages_valid_def performSearch_resolved_def Let_def)
  qed
qed

lemma apply_event_valid:
  assumes "pages_valid c"
  shows "pages_valid (apply_event c ev)"
proof (cases ev)
  case ClickPrevious
  show ?thesis
  proof (cases "pagination_shown (ui c) \<and> \<not> previous_disabled (ui c)")
    case True
    then have "currentPage (ui c) \<noteq> 1" by (simp add: previous_disabled_def)
    moreover have "1 \<le> currentPage (ui c)" using assms by (simp add: pages_valid_def)
    ultimately have "1 \<le> currentPage (ui c) - 1" by simp
    then show ?thesis using assms True ClickPrevious by (simp add: begin_search_valid)
  next
    case False
    then show ?thesis using assms ClickPrevious by auto
  qed
next
  case ClickNext
  have "1 \<le> currentPage (ui c) + 1" using assms by (simp add: pages_valid_def)
  then show ?thesis using assms ClickNext by (simp add: begin_search_valid)
next
  case (SetQuery q)
  then show ?thesis using assms by (simp add: pages_valid_def)
next
  case ToggleFilters
  then show ?thesis using assms by (simp add: pages_valid_def)
next
  case (SetSubject s)
  then show ?thesis using assms by (simp add: filters_changed_valid)
next
  case (SetYear y)
  then show ?thesis using assms by (simp add: filters_changed_valid)
next
  case ClickSearch
  then show ?thesis using assms by (simp add: begin_search_valid)
next
  case PressEnter
  then show ?thesis using assms by (simp add: begin_search_valid)
next
  case TimerFires
  then show ?thesis using assms by (simp add: performSearch_begin_valid)
next
  case (Resolves i rs)
  then show ?thesis using assms by (simp add: settle_valid)
next
  case (Rejects i e)
  then show ?thesis using assms by (simp add: settle_valid)
qed

lemma foldl_apply_event_valid:
  "pages_valid c \<Longrightarrow> pages_valid (foldl apply_event c evs)"
  by (induction evs arbitrary: c) (simp_all add: apply_event_valid)

lemma initial_config_valid: "pages_valid initial_config"
  by (simp add: pages_valid_def initial_config_def initial_state_def)

lemma run_valid: "pages_valid (run evs)"
  unfolding run_def by (rule foldl_apply_event_valid [OF initial_config_valid])

lemma run_sample:
  "run [SetQuery ''federalism'', PressEnter, Resolves 0 [sample_item]]
   = \<lparr>ui = \<lparr>query = ''federalism'', results = [sample_item], loading = False,
            filters_subject = [], filters_year = [], showFilters = False, currentPage = 1,
            hasMoreResults = False, totalResults = 1\<rparr>,
      inflight = [], issued = [(''federalism'', searchFilters [] [] 1)],
      isAutoSearching = False, autoTimer = None, cleanup = False\<rparr>"
  by (simp add: run_def initial_config_def initial_state_def begin_search_def
      handleSearch_begin_def trim_def is_ws_def settle_def handleSearch_resolved_def)

text \<open>
  Claim C6. After any sequence of events from the initial load (typing, filter changes,
  searches by button or Enter key, Next, Previous, the automatic search, responses and
  failures arriving in any order) the current page is at least 1 and every call the page
  has made of the search service carries a page of at least 1; at page 1 a click on
  Previous does nothing.
\<close>

theorem current_page_at_least_one:
  "1 \<le> currentPage (ui (run evs))
   \<and> list_all page_ok (issued (run evs))
   \<and> (currentPage (ui (run evs)) = 1 \<longrightarrow> apply_event (run evs) ClickPrevious = run evs)"
  using run_valid [of evs] by (simp add: pages_valid_def previous_disabled_def)

theorem current_page_at_least_one_witness:
  "currentPage (ui (run [SetQuery ''federalism'', PressEnter, Resolves 0 [sample_item]])) = 1
   \<and> issued (run [SetQuery ''federalism'', PressEnter, Resolves 0 [sample_item]])
       = [(''federalism'', searchFilters [] [] 1)]
   \<and> apply_event (run [SetQuery ''federalism'', PressEnter, Resolves 0 [sample_item]])
        ClickPrevious
      = run [SetQuery ''federalism'', PressEnter, Resolves 0 [sample_item]]"
  using current_page_at_least_one
    [of "[SetQuery ''federalism'', PressEnter, Resolves 0 [sample_item]]"]
  by (simp add: run_sample)

section \<open>The cache and the endpoint of the specification\<close>

text \<open>The contract of \<open>get\<close>: an entry older than \<open>TTL\<close> is absent, though the
  store still holds it.\<close>

lemma cache_get_contract:
  assumes "store fp = Some e" and "now - createdAt e > TTL"
  shows "cache_get store now fp = None"
  using assms by (simp add: cache_get_def)

text \<open>
  Claim C4. A cache entry created at time \<open>T\<close> is treated as absent by every lookup at
  any time \<open>\<ge> T + TTL\<close> and as present by every lookup at any time \<open>< T + TTL\<close>,
  with \<open>TTL\<close> five minutes, and this whether or not the entry is still physically
  stored: the store itself keeps the entry.
\<close>

theorem cache_ttl_expiry:
  "(T + TTL \<le> now \<longrightarrow> cache_get (cache_put store T fp rs) now fp = None)
   \<and> (now < T + TTL \<longrightarrow>
        cache_get (cache_put store T fp rs) now fp
          = Some \<lparr>fingerprint = fp, cached = rs, createdAt = T\<rparr>)
   \<and> cache_put store T fp rs fp = Some \<lparr>fingerprint = fp, cached = rs, createdAt = T\<rparr>
   \<and> TTL = 300"
  by (simp add: cache_get_def cache_put_def TTL_def)

theorem cache_ttl_expiry_witness:
  "cache_get (cache_put no_entries 1000 ''fp'' [1, 2]) 1300 ''fp'' = None
   \<and> cache_get (cache_put no_entries 1000 ''fp'' [1, 2]) 1299 ''fp''
       = Some \<lparr>fingerprint = ''fp'', cached = [1, 2], createdAt = 1000\<rparr>
   \<and> cache_put no_entries 1000 ''fp'' [1, 2] ''fp''
       = Some \<lparr>fingerprint = ''fp'', cached = [1, 2], createdAt = 1000\<rparr>"
proof -
  have late: "(1000::int) + TTL \<le> 1300"
    by (simp add: TTL_def)
  have early: "(1299::int) < 1000 + TTL"
    by (simp add: TTL_def)
  from late cache_ttl_expiry [of 1000 1300 no_entries "''fp''" "[1, 2]"]
  have c1: "cache_get (cache_put no_entries 1000 ''fp'' [1, 2]) 1300 ''fp'' = None"
    by blast
  from early cache_ttl_expiry [of 1000 1299 no_entries "''fp''" "[1, 2]"]
  have c2: "cache_get (cache_put no_entries 1000 ''fp'' [1, 2]) 1299 ''fp''
      = Some \<lparr>fingerprint = ''fp'', cached = [1, 2], createdAt = 1000\<rparr>"
    by blast
  from cache_ttl_expiry [of 1000 1299 no_entries "''fp''" "[1, 2]"]
  have c3: "cache_put no_entries 1000 ''fp'' [1, 2] ''fp''
      = Some \<lparr>fingerprint = ''fp'', cached = [1, 2], createdAt = 1000\<rparr>"
    by blast
  show ?thesis
    by (intro conjI c1 c2 c3)
qed

lemma length_slice: "1 \<le> l \<Longrightarrow> int (length (slice rs p l)) \<le> l"
  by (simp add: slice_def)

section \<open>Paging through the results\<close>

lemma slice_ten:
  assumes "1 \<le> p"
  shows "slice full p 10 = take 10 (drop (10 * nat (p - 1)) full)"
proof -
  have "nat ((p - 1) * 10) = nat (p - 1) * nat 10"
    using assms by (intro nat_mult_distrib) simp
  then have "nat ((p - 1) * 10) = 10 * nat (p - 1)"
    by simp
  then show ?thesis
    unfolding slice_def by simp
qed

lemma slice_succ: "slice full (int (Suc n)) 10 = take 10 (drop (10 * n) full)"
proof -
  have pos: "1 \<le> int (Suc n)"
    by simp
  have pred: "nat (int (Suc n) - 1) = n"
    by simp
  show ?thesis
    unfolding slice_ten [OF pos] pred ..
qed

text \<open>The first \<open>n\<close> windows of ten items, one after the other, are the first
  \<open>10 * n\<close> items of the list.\<close>

lemma concat_slices:
  "concat (map (\<lambda>k. slice full (int k) 10) [1..<Suc n]) = take (10 * n) full"
proof (induction n)
  case 0
  show ?case by simp
next
  case (Suc n)
  have step: "take (10 * n) full @ take 10 (drop (10 * n) full) = take (10 * Suc n) full"
    using take_add [of "10 * n" 10 full] by (simp add: add.commute)
  have "concat (map (\<lambda>k. slice full (int k) 10) [1..<Suc (Suc n)])
      = concat (map (\<lambda>k. slice full (int k) 10) [1..<Suc n]) @ slice full (int (Suc n)) 10"
    by simp
  also have "\<dots> = take (10 * n) full @ take 10 (drop (10 * n) full)"
    unfolding Suc slice_succ ..
  finally show ?case
    unfolding step .
qed

text \<open>Over the later copy of the service and the endpoint of the specification, a search
  for page \<open>p\<close> leaves the \<open>p\<close>-th window of the ranked list on the page.\<close>

lemma handleSearch_paged_shows_slice:
  assumes "trim (query st) \<noteq> []" and "1 \<le> p"
  shows "results (fst (handleSearch_paged now (search_endpoint (stored_results full)) st p))
           = slice full p 10"
proof -
  let ?body = "searchRequest_paged now (query st)
    (Some (searchFilters (filters_subject st) (filters_year st) p))"
  have l: "map_of ?body ''limit'' = Some (JNumber 10)"
    by (simp add: searchRequest_paged_limit searchFilters_def or_default_def)
  have pg: "map_of ?body ''page'' = Some (JNumber p)"
    using assms(2) by (simp add: searchRequest_paged_page)
  have "search_endpoint (stored_results full) ''/pyqs/search'' ?body
      = Inr \<lparr>status = 200, data = slice full p 10\<rparr>"
    using assms
    by (simp add: search_endpoint_def searchRequest_paged_query l pg stored_results_def)
  then show ?thesis
    using assms(1)
    by (simp add: handleSearch_paged_def handleSearch_begin_def searchPYQs_paged_def
        handleSearch_resolved_def)
qed

lemma numbered_items_distinct: "distinct (numbered_items n)"
proof -
  have "inj_on (\<lambda>i. sample_item\<lparr>pyq_id := int i\<rparr>) (set [0..<n])"
  proof (rule inj_onI)
    fix i j :: nat
    assume "sample_item\<lparr>pyq_id := int i\<rparr> = sample_item\<lparr>pyq_id := int j\<rparr>"
    then have "pyq_id (sample_item\<lparr>pyq_id := int i\<rparr>) = pyq_id (sample_item\<lparr>pyq_id := int j\<rparr>)"
      by (rule arg_cong)
    then show "i = j"
      by simp
  qed
  then show ?thesis
    by (simp add: numbered_items_def distinct_map)
qed

lemma numbered_items_length: "length (numbered_items n) = n"
  by (simp add: numbered_items_def)

text \<open>
  Claim C1. For a fixed query and filters, with the same stored result set behind the
  endpoint, the request for page 1 and the request for page 2, both with limit 10, carry
  different pages and bring back two windows that do not overlap: the first ten items
  and the ten after them, each of ten items when the set has at least twenty, with no
  item in common when the items are distinct. The pages one after the other, up to a
  page that reaches the end, are the full result set in its order.
\<close>

theorem pagination_transparency:
  assumes "trim (query st) \<noteq> []"
  shows "map_of (searchRequest_paged now1 (query st)
            (Some (searchFilters (filters_subject st) (filters_year st) 1))) ''page''
           = Some (JNumber 1)
     \<and> map_of (searchRequest_paged now2 (query st)
            (Some (searchFilters (filters_subject st) (filters_year st) 2))) ''page''
           = Some (JNumber 2)
     \<and> results (fst (handleSearch_paged now1 (search_endpoint (stored_results full)) st 1))
           = take 10 full
     \<and> results (fst (handleSearch_paged now2 (search_endpoint (stored_results full)) st 2))
           = take 10 (drop 10 full)
     \<and> (20 \<le> length full \<longrightarrow>
          length (results
            (fst (handleSearch_paged now1 (search_endpoint (stored_results full)) st 1))) = 10
          \<and> length (results
            (fst (handleSearch_paged now2 (search_endpoint (stored_results full)) st 2))) = 10)
     \<and> (distinct full \<longrightarrow>
          set (results
            (fst (handleSearch_paged now1 (search_endpoint (stored_results full)) st 1)))
          \<inter> set (results
            (fst (handleSearch_paged now2 (search_endpoint (stored_results full)) st 2))) = {})
     \<and> (length full \<le> 10 * n \<longrightarrow>
          concat (map (\<lambda>k. results
            (fst (handleSearch_paged (clock k) (search_endpoint (stored_results full)) st (int k))))
            [1..<Suc n]) = full)"
proof -
  let ?E = "search_endpoint (stored_results full)"
  have r1: "map_of (searchRequest_paged now1 (query st)
      (Some (searchFilters (filters_subject st) (filters_year st) 1))) ''page''
      = Some (JNumber 1)"
    by (simp add: searchRequest_paged_page)
  have r2: "map_of (searchRequest_paged now2 (query st)
      (Some (searchFilters (filters_subject st) (filters_year st) 2))) ''page''
      = Some (JNumber 2)"
    by (simp add: searchRequest_paged_page)
  have p1: "results (fst (handleSearch_paged now1 ?E st 1)) = take 10 full"
    using handleSearch_paged_shows_slice [OF assms, of 1 now1 full] by (simp add: slice_ten)
  have p2: "results (fst (handleSearch_paged now2 ?E st 2)) = take 10 (drop 10 full)"
    using handleSearch_paged_shows_slice [OF assms, of 2 now2 full] by (simp add: slice_ten)
  have len: "20 \<le> length full \<longrightarrow>
      length (results (fst (handleSearch_paged now1 ?E st 1))) = 10
      \<and> length (results (fst (handleSearch_paged now2 ?E st 2))) = 10"
    unfolding p1 p2 by simp
  have disj: "distinct full \<longrightarrow>
      set (results (fst (handleSearch_paged now1 ?E st 1)))
      \<inter> set (results (fst (handleSearch_paged now2 ?E st 2))) = {}"
    unfolding p1 p2
  proof
    assume "distinct full"
    then have "set (take 10 full) \<inter> set (drop 10 full) = {}"
      by (rule set_take_disj_set_drop_if_distinct) simp
    moreover have "set (take 10 (drop 10 full)) \<subseteq> set (drop 10 full)"
      by (rule set_take_subset)
    ultimately show "set (take 10 full) \<inter> set (take 10 (drop 10 full)) = {}"
      by blast
  qed
  have all: "length full \<le> 10 * n \<longrightarrow>
      concat (map (\<lambda>k. results (fst (handleSearch_paged (clock k) ?E st (int k))))
        [1..<Suc n]) = full"
  proof
    assume bound: "length full \<le> 10 * n"
    have each: "results (fst (handleSearch_paged (clock k) ?E st (int k))) = slice full (int k) 10"
      if "k \<in> set [1..<Suc n]" for k
    proof -
      from that have "1 \<le> int k" by auto
      from handleSearch_paged_shows_slice [OF assms this] show ?thesis .
    qed
    have "map (\<lambda>k. results (fst (handleSearch_paged (clock k) ?E st (int k)))) [1..<Suc n]
        = map (\<lambda>k. slice full (int k) 10) [1..<Suc n]"
      by (rule map_cong [OF refl]) (rule each)
    then have "concat (map (\<lambda>k. results (fst (handleSearch_paged (clock k) ?E st (int k))))
        [1..<Suc n]) = take (10 * n) full"
      by (simp only: concat_slices)
    then show "concat (map (\<lambda>k. results (fst (handleSearch_paged (clock k) ?E st (int k))))
        [1..<Suc n]) = full"
      using bound by simp
  qed
  show ?thesis
    by (intro conjI r1 r2 p1 p2 len disj all)
qed

theorem pagination_transparency_witness:
  "results (fst (handleSearch_paged 1700000000000
       (search_endpoint (stored_results (numbered_items 25))) browsing_state 1))
     = take 10 (numbered_items 25)
   \<and> results (fst (handleSearch_paged 1700000060000
       (search_endpoint (stored_results (numbered_items 25))) browsing_state 2))
     = take 10 (drop 10 (numbered_items 25))
   \<and> length (results (fst (handleSearch_paged 1700000060000
       (search_endpoint (stored_results (numbered_items 25))) browsing_state 2))) = 10
   \<and> set (results (fst (handleSearch_paged 1700000000000
       (search_endpoint (stored_results (numbered_items 25))) browsing_state 1)))
     \<inter> set (results (fst (handleSearch_paged 1700000060000
       (search_endpoint (stored_results (numbered_items 25))) browsing_state 2))) = {}
   \<and> concat (map (\<lambda>k. results (fst (handleSearch_paged (1700000000000 + int k)
       (search_endpoint (stored_results (numbered_items 25))) browsing_state (int k))))
       [1..<Suc 3]) = numbered_items 25"
proof -
  have q: "trim (query browsing_state) \<noteq> []"
    by (simp add: browsing_state_def trim_def is_ws_def)
  have d: "distinct (numbered_items 25)"
    by (rule numbered_items_distinct)
  have l: "length (numbered_items 25) = 25"
    by (rule numbered_items_length)
  note w = pagination_transparency
    [OF q, of 1700000000000 1700000060000 "numbered_items 25" 3
       "\<lambda>k. 1700000000000 + int k"]
  from w have w1: "results (fst (handleSearch_paged 1700000000000
       (search_endpoint (stored_results (numbered_items 25))) browsing_state 1))
     = take 10 (numbered_items 25)"
    by blast
  from w have w2: "results (fst (handleSearch_paged 1700000060000
       (search_endpoint (stored_results (numbered_items 25))) browsing_state 2))
     = take 10 (drop 10 (numbered_items 25))"
    by blast
  have w3: "length (results (fst (handleSearch_paged 1700000060000
       (search_endpoint (stored_results (numbered_items 25))) browsing_state 2))) = 10"
    unfolding w2 by (simp add: l)
  from w d have w4: "set (results (fst (handleSearch_paged 1700000000000
       (search_endpoint (stored_results (numbered_items 25))) browsing_state 1)))
     \<inter> set (results (fst (handleSearch_paged 1700000060000
       (search_endpoint (stored_results (numbered_items 25))) browsing_state 2))) = {}"
    by blast
  have "length (numbered_items 25) \<le> 10 * 3"
    by (simp add: l)
  with w have w5: "concat (map (\<lambda>k. results (fst (handleSearch_paged (1700000000000 + int k)
       (search_endpoint (stored_results (numbered_items 25))) browsing_state (int k))))
       [1..<Suc 3]) = numbered_items 25"
    by blast
  show ?thesis
    by (intro conjI w1 w2 w3 w4 w5)
qed

text \<open>
  Claim C7. A successful call of \<open>searchPYQs\<close> returns the body of the response as it
  is, a list of \<open>PYQSearchResult\<close> records, not wrapped in an envelope; served by the
  endpoint of the specification it is in the order of the ranked list and has at most
  as many items as the limit the request carries.
\<close>

theorem search_response_shape:
  "(post ''/pyqs/search'' (searchRequest q filters) = Inr r \<longrightarrow>
      searchPYQs post q filters = Inr (data r))
   \<and> (searchPYQs (search_endpoint ranked) q filters = Inr items \<longrightarrow>
      int (length items) \<le> or_default (Option.bind filters limit) 10
      \<and> (\<exists>full. ranked q (map_of (searchRequest q filters) ''subject'')
                    (map_of (searchRequest q filters) ''year'') = Inr full
            \<and> items = take (nat (or_default (Option.bind filters limit) 10)) full))"
proof -
  have direct: "post ''/pyqs/search'' (searchRequest q filters) = Inr r \<longrightarrow>
      searchPYQs post q filters = Inr (data r)"
    by (simp add: searchPYQs_def)
  have bounded: "searchPYQs (search_endpoint ranked) q filters = Inr items \<longrightarrow>
      int (length items) \<le> or_default (Option.bind filters limit) 10
      \<and> (\<exists>full. ranked q (map_of (searchRequest q filters) ''subject'')
                    (map_of (searchRequest q filters) ''year'') = Inr full
            \<and> items = take (nat (or_default (Option.bind filters limit) 10)) full)"
    by (auto simp add: searchPYQs_def search_endpoint_def searchRequest_no_page
        searchRequest_query searchRequest_limit slice_def Let_def split: sum.splits if_splits)
  from direct bounded show ?thesis by blast
qed

theorem search_response_shape_witness:
  "searchPYQs (fixed_post [sample_item]) ''federalism'' None = Inr [sample_item]
   \<and> searchPYQs (search_endpoint (stored_results (replicate 25 sample_item))) ''federalism'' None
       = Inr (replicate 10 sample_item)
   \<and> int (length (replicate 10 sample_item)) \<le> 10"
proof -
  have served: "searchPYQs (search_endpoint (stored_results (replicate 25 sample_item)))
      ''federalism'' None = Inr (replicate 10 sample_item)"
    by (simp add: searchPYQs_def search_endpoint_def searchRequest_def or_default_def
        spread_string_def spread_number_def trim_def is_ws_def stored_results_def slice_def)
  have answered: "fixed_post [sample_item] ''/pyqs/search'' (searchRequest ''federalism'' None)
      = Inr \<lparr>status = 200, data = [sample_item]\<rparr>"
    by (simp add: fixed_post_def)
  show ?thesis
    using search_response_shape
      [where post = "fixed_post [sample_item]" and q = "''federalism''" and filters = None
         and r = "\<lparr>status = 200, data = [sample_item]\<rparr>"
         and ranked = "stored_results (replicate 25 sample_item)"
         and items = "replicate 10 sample_item"]
      served answered
    by simp
qed

end
